theory Spec2Isabelle
  imports Complex_Main "HOL-Library.Sublist" "HOL-Library.List_Lexorder" "HOL-Library.Log_Nat"
begin

section \<open>Python values used by chloropleth\_map\_of\_ireland.py\<close>

text \<open>
  A Python \<open>str\<close> is a sequence of Unicode code points. The script replaces U+2019 and
  U+2013, which do not fit a byte, so a string is a list of code points here. Lists are
  ordered lexicographically (\<open>List_Lexorder\<close>), which is how Python compares strings.
\<close>

type_synonym ustr = "nat list"

definition u :: "string \<Rightarrow> ustr" where
  "u s = map of_char s"

text \<open>
  The exceptions the script can raise in the modelled part. The spec calls the
  \<open>ValueError\<close> of the two loaders a ConfigurationError.
\<close>

datatype error = ValueError | TypeError | ZeroDivisionError

text \<open>
  What the Python runtime and the libraries contribute and the repository does not hold:
  the Unicode lowercase mapping of a code point outside ASCII (\<open>str.lower\<close> is applied
  code point by code point; its one context rule, the Greek final sigma, is not modelled),
  \<open>str()\<close> of an integer and of a float, the parser behind
  \<open>pd.to_numeric(..., errors="coerce")\<close>, which gives no number for a text it cannot
  read, and the colour ramp \<open>mcolors.to_hex(cm.get_cmap("viridis")(t))\<close>.
\<close>

record runtime =
  lower_table :: "nat \<Rightarrow> ustr"
  int_str :: "int \<Rightarrow> ustr"
  float_str :: "rat \<Rightarrow> ustr"
  parse_number :: "ustr \<Rightarrow> rat option"
  viridis_hex :: "rat \<Rightarrow> ustr"

text \<open>A value held by a data frame cell or a GeoJSON property.\<close>

datatype cell = Text ustr | PyInt int | PyFloat rat | NaN | PyNone

fun is_Text :: "cell \<Rightarrow> bool" where
  "is_Text (Text s) = True"
| "is_Text c = False"

fun the_Text :: "cell \<Rightarrow> ustr" where
  "the_Text (Text s) = s"
| "the_Text c = []"

text \<open>\<open>str(s)\<close>, for a value that is not \<open>None\<close>.\<close>

fun str :: "runtime \<Rightarrow> cell \<Rightarrow> ustr" where
  "str rt (Text s) = s"
| "str rt (PyInt i) = int_str rt i"
| "str rt (PyFloat r) = float_str rt r"
| "str rt NaN = u ''nan''"
| "str rt PyNone = u ''None''"

text \<open>\<open>pd.to_numeric(column, errors="coerce")\<close> on one cell; \<open>None\<close> is the NaN of the result.\<close>

fun to_numeric :: "runtime \<Rightarrow> cell \<Rightarrow> rat option" where
  "to_numeric rt (Text s) = parse_number rt s"
| "to_numeric rt (PyInt i) = Some (of_int i)"
| "to_numeric rt (PyFloat r) = Some r"
| "to_numeric rt NaN = None"
| "to_numeric rt PyNone = None"

subsection \<open>String methods\<close>

text \<open>The code points for which \<open>str.isspace\<close> holds; \<open>str.strip()\<close> removes them.\<close>

definition isspace :: "nat \<Rightarrow> bool" where
  "isspace c \<longleftrightarrow>
     (0x09 \<le> c \<and> c \<le> 0x0D) \<or> (0x1C \<le> c \<and> c \<le> 0x20) \<or> c = 0x85 \<or> c = 0xA0 \<or>
     c = 0x1680 \<or> (0x2000 \<le> c \<and> c \<le> 0x200A) \<or> c = 0x2028 \<or> c = 0x2029 \<or>
     c = 0x202F \<or> c = 0x205F \<or> c = 0x3000"

definition lstrip :: "ustr \<Rightarrow> ustr" where
  "lstrip s = dropWhile isspace s"

definition rstrip :: "ustr \<Rightarrow> ustr" where
  "rstrip s = rev (dropWhile isspace (rev s))"

definition strip :: "ustr \<Rightarrow> ustr" where
  "strip s = rstrip (lstrip s)"

definition lower_cp :: "runtime \<Rightarrow> nat \<Rightarrow> ustr" where
  "lower_cp rt c =
     (if 0x41 \<le> c \<and> c \<le> 0x5A then [c + 0x20]
      else if c < 0x80 then [c]
      else lower_table rt c)"

definition lower :: "runtime \<Rightarrow> ustr \<Rightarrow> ustr" where
  "lower rt s = concat (map (lower_cp rt) s)"

definition startswith :: "ustr \<Rightarrow> ustr \<Rightarrow> bool" where
  "startswith s p = prefix p s"

text \<open>\<open>s.replace(old, new)\<close> where \<open>old\<close> and \<open>new\<close> are one code point each.\<close>

definition replace :: "ustr \<Rightarrow> nat \<Rightarrow> nat \<Rightarrow> ustr" where
  "replace s old new = map (\<lambda>c. if c = old then new else c) s"

text \<open>\<open>d.get(k, default)\<close>.\<close>

definition dict_get :: "('k \<rightharpoonup> 'v) \<Rightarrow> 'k \<Rightarrow> 'v \<Rightarrow> 'v" where
  "dict_get d k dflt = (case d k of None \<Rightarrow> dflt | Some v \<Rightarrow> v)"

section \<open>norm\_county\_name\<close>

definition aliases :: "ustr \<rightharpoonup> ustr" where
  "aliases = map_of [(u ''kings county'', u ''offaly''), (u ''queens county'', u ''laois'')]"

definition norm_county_name :: "runtime \<Rightarrow> cell \<Rightarrow> ustr" where
  "norm_county_name rt s =
     (if s = PyNone then []
      else
        let s0 = strip (str rt s);
            s0 = (if startswith (lower rt s0) (u ''county '') then drop 7 s0 else s0);
            s0 = lower rt (strip (replace (replace s0 0x2019 0x27) 0x2013 0x2D))
        in dict_get aliases s0 s0)"

section \<open>load\_wordcounts\<close>

text \<open>
  The frame \<open>pd.read_csv\<close> returns: the header names, which pandas makes distinct, and
  the rows, one cell per column. \<open>read_csv\<close> fills a short row with NaN.
\<close>

record frame =
  columns :: "ustr list"
  rows :: "cell list list"

fun index_of :: "'a list \<Rightarrow> 'a \<Rightarrow> nat" where
  "index_of [] x = 0"
| "index_of (y # ys) x = (if y = x then 0 else Suc (index_of ys x))"

definition getitem :: "ustr list \<Rightarrow> cell list \<Rightarrow> ustr \<Rightarrow> cell" where
  "getitem names row name =
     (let i = index_of names name in if i < length row then row ! i else NaN)"

text \<open>\<open>{c.lower(): c for c in df.columns}\<close>: a later column overwrites an earlier one.\<close>

definition lower_names :: "runtime \<Rightarrow> ustr list \<Rightarrow> (ustr \<rightharpoonup> ustr)" where
  "lower_names rt cs = fold (\<lambda>c m. m(lower rt c \<mapsto> c)) cs Map.empty"

text \<open>\<open>a or b\<close> on two results of \<open>dict.get\<close>: \<open>None\<close> and the empty string are falsy.\<close>

definition py_or :: "ustr option \<Rightarrow> ustr option \<Rightarrow> ustr option" where
  "py_or a b = (case a of None \<Rightarrow> b | Some s \<Rightarrow> if s = [] then b else Some s)"

record wc_row =
  county :: cell
  wc_value :: "rat option"
  wc_key :: ustr

text \<open>
  The two columns \<open>load_wordcounts\<close> looks for, \<open>cols.get("county")\<close> and
  \<open>cols.get("prosewords") or cols.get("words")\<close>, with \<open>cols\<close> the dictionary above.
\<close>

definition county_column :: "runtime \<Rightarrow> frame \<Rightarrow> ustr option" where
  "county_column rt df = lower_names rt (columns df) (u ''county'')"

definition words_column :: "runtime \<Rightarrow> frame \<Rightarrow> ustr option" where
  "words_column rt df =
     (let cols = lower_names rt (columns df)
      in py_or (cols (u ''prosewords'')) (cols (u ''words'')))"

definition load_wordcounts :: "runtime \<Rightarrow> frame \<Rightarrow> error + wc_row list" where
  "load_wordcounts rt df =
     (let county_col = county_column rt df;
          words_col = words_column rt df
      in if county_col = None \<or> words_col = None then Inl ValueError
         else Inr (map (\<lambda>row.
                \<lparr>county = getitem (columns df) row (the county_col),
                 wc_value = to_numeric rt (getitem (columns df) row (the words_col)),
                 wc_key = norm_county_name rt (getitem (columns df) row (the county_col))\<rparr>)
              (rows df)))"

section \<open>load\_geo\<close>

text \<open>
  The frame \<open>gpd.read_file\<close> returns: the names of the property columns and, for each
  feature, its property cells and its geometry. The name field is looked up among the
  property columns: \<open>main\<close> passes \<open>NAME_1\<close>, and the column \<open>geometry\<close> as name
  field is outside the model.
\<close>

record 'g geoframe =
  gcolumns :: "ustr list"
  features :: "(cell list \<times> 'g) list"

record 'g geo_row =
  geo_name :: cell
  geometry :: 'g
  key :: ustr

definition load_geo :: "runtime \<Rightarrow> 'g geoframe \<Rightarrow> ustr \<Rightarrow> error + 'g geo_row list" where
  "load_geo rt gdf county_field =
     (if county_field \<notin> set (gcolumns gdf) then Inl ValueError
      else Inr (map (\<lambda>(props, geom).
             \<lparr>geo_name = getitem (gcolumns gdf) props county_field,
              geometry = geom,
              key = norm_county_name rt (getitem (gcolumns gdf) props county_field)\<rparr>)
           (features gdf)))"

section \<open>The merge and the report of main\<close>

record 'g merged_row = "'g geo_row" +
  "value" :: "rat option"

text \<open>
  \<open>gdf.merge(wc[["key", "value"]], on="key", how="left")\<close>: pandas keeps the order of the
  left frame; a left row is paired with every right row of the same key, in the order of
  the right frame, and a left row without a partner appears once, with NaN.
\<close>

definition matches :: "ustr \<Rightarrow> (ustr \<times> rat option) list \<Rightarrow> (ustr \<times> rat option) list" where
  "matches k wc = filter (\<lambda>w. fst w = k) wc"

definition merge_row :: "'g geo_row \<Rightarrow> (ustr \<times> rat option) list \<Rightarrow> 'g merged_row list" where
  "merge_row g wc =
     (if matches (key g) wc = [] then [geo_row.extend g \<lparr>value = None\<rparr>]
      else map (\<lambda>w. geo_row.extend g \<lparr>value = snd w\<rparr>) (matches (key g) wc))"

definition merge_left :: "'g geo_row list \<Rightarrow> (ustr \<times> rat option) list \<Rightarrow> 'g merged_row list" where
  "merge_left gdf wc = concat (map (\<lambda>g. merge_row g wc) gdf)"

definition key_value :: "wc_row list \<Rightarrow> (ustr \<times> rat option) list" where
  "key_value wc = map (\<lambda>r. (wc_key r, wc_value r)) wc"

text \<open>\<open>merged.loc[merged["value"].isna(), "geo_name"].tolist()\<close>\<close>

definition missing_values :: "'g merged_row list \<Rightarrow> cell list" where
  "missing_values merged = map geo_name (filter (\<lambda>r. value r = None) merged)"

text \<open>
  The names the report prints, \<open>sorted(set(missing_values))\<close>, when the list is not
  empty. \<open>", ".join\<close> raises TypeError on an item that is not a string (and \<open>sorted\<close>
  may raise it before, comparing values of two types).
\<close>

definition report :: "cell list \<Rightarrow> error + ustr list" where
  "report mv =
     (if mv = [] then Inr []
      else if list_ex (\<lambda>c. \<not> is_Text c) mv then Inl TypeError
      else Inr (sorted_list_of_set (set (map the_Text mv))))"

section \<open>float64 arithmetic\<close>

text \<open>
  pandas, numpy and Python compute with IEEE 754 binary64 numbers. A finite float64 is a
  rational here, and an operation gives the exact result rounded to the nearest float64,
  ties to the even significand: 53 bits of significand, and the fixed spacing
  \<open>2^-1074\<close> below \<open>2^-1022\<close>. \<open>ilog2 x\<close> is the exponent of \<open>x\<close>, the integer
  \<open>e\<close> with \<open>2^e \<le> |x| < 2^(e+1)\<close>. Infinities and NaN as the result of an operation
  are outside the model: a result beyond the largest float64 is rounded as if the exponent
  had no upper bound.
\<close>

definition round_half_even :: "rat \<Rightarrow> int" where
  "round_half_even x =
     (let f = \<lfloor>x\<rfloor>; d = x - of_int f
      in if d < 1 / 2 then f else if 1 / 2 < d then f + 1 else if even f then f else f + 1)"

definition ilog2 :: "rat \<Rightarrow> int" where
  "ilog2 x =
     (let (p, q) = quotient_of \<bar>x\<bar>;
          d = bitlen p - bitlen q
      in if 2 powi d \<le> \<bar>x\<bar> then d else d - 1)"

definition round64 :: "rat \<Rightarrow> rat" where
  "round64 x =
     (if x = 0 then 0
      else let e = max (ilog2 x) (- 1022); ulp = 2 powi (e - 52)
           in of_int (round_half_even (x / ulp)) * ulp)"

definition fadd :: "rat \<Rightarrow> rat \<Rightarrow> rat" where
  "fadd a b = round64 (a + b)"

definition fsub :: "rat \<Rightarrow> rat \<Rightarrow> rat" where
  "fsub a b = round64 (a - b)"

definition fmul :: "rat \<Rightarrow> rat \<Rightarrow> rat" where
  "fmul a b = round64 (a * b)"

definition fdiv :: "rat \<Rightarrow> rat \<Rightarrow> rat" where
  "fdiv a b = round64 (a / b)"

section \<open>make\_bins\<close>

definition dropna :: "rat option list \<Rightarrow> rat list" where
  "dropna values = map the (filter (\<lambda>x. x \<noteq> None) values)"

text \<open>
  \<open>np.linspace(start, stop, num)\<close>, as numpy computes it: a negative \<open>num\<close> raises
  ValueError; otherwise \<open>delta = stop - start\<close>, \<open>step = delta / div\<close> with
  \<open>div = num - 1\<close>, and \<open>y = arange(0, num) * step + start\<close> (when \<open>step\<close> is zero,
  \<open>y = arange(0, num) / div * delta + start\<close>), each operation rounded; the last element
  is then set to \<open>stop\<close>.
\<close>

definition linspace :: "rat \<Rightarrow> rat \<Rightarrow> int \<Rightarrow> error + rat list" where
  "linspace start stop num =
     (if num < 0 then Inl ValueError
      else
        let dv = num - 1;
            delta = fsub stop start;
            y = map of_nat [0..<nat num];
            y = (if 0 < dv then
                   (let step = fdiv delta (of_int dv)
                    in if step = 0 then map (\<lambda>x. fmul (fdiv x (of_int dv)) delta) y
                       else map (\<lambda>x. fmul x step) y)
                 else map (\<lambda>x. fmul x delta) y);
            y = map (\<lambda>x. fadd x start) y
        in Inr (if 1 < num then butlast y @ [stop] else y))"

text \<open>
  \<open>np.quantile(v, q)\<close> with the default method \<open>linear\<close>, as numpy computes it: the
  virtual index \<open>(n - 1) * q\<close> in the sorted values, its floor and the next index (both
  the last index when the virtual index is \<open>n - 1\<close> or more, both 0 when it is negative),
  \<open>gamma\<close> the virtual index minus the previous index, and numpy's \<open>_lerp\<close> of the two
  values: \<open>a + (b - a) * t\<close>, replaced by \<open>b - (b - a) * (1 - t)\<close> where \<open>t >= 0.5\<close>. A
  \<open>q\<close> outside \<open>[0, 1]\<close> raises ValueError. \<open>v\<close> is not empty where \<open>make_bins\<close> calls
  it. \<open>item s i\<close> is Python's \<open>s[i]\<close>, where \<open>-1\<close> is the last index.
\<close>

definition lerp :: "rat \<Rightarrow> rat \<Rightarrow> rat \<Rightarrow> rat" where
  "lerp a b t =
     (if 1 / 2 \<le> t then fsub b (fmul (fsub b a) (fsub 1 t))
      else fadd a (fmul (fsub b a) t))"

definition item :: "'a list \<Rightarrow> int \<Rightarrow> 'a" where
  "item s i = (if i < 0 then s ! nat (int (length s) + i) else s ! nat i)"

definition quantile_at :: "rat list \<Rightarrow> rat \<Rightarrow> rat" where
  "quantile_at v q =
     (let arr = sort v;
          n = length arr;
          virtual_index = fmul (of_nat (n - 1)) q;
          previous_index =
            (if of_nat (n - 1) \<le> virtual_index then - 1
             else if virtual_index < 0 then 0 else \<lfloor>virtual_index\<rfloor>);
          next_index =
            (if of_nat (n - 1) \<le> virtual_index then - 1
             else if virtual_index < 0 then 0 else \<lfloor>virtual_index\<rfloor> + 1);
          gamma = fsub virtual_index (of_int previous_index)
      in lerp (item arr previous_index) (item arr next_index) gamma)"

definition np_quantile :: "rat list \<Rightarrow> rat list \<Rightarrow> error + rat list" where
  "np_quantile v qs =
     (if list_ex (\<lambda>q. q < 0 \<or> 1 < q) qs then Inl ValueError
      else Inr (map (quantile_at v) qs))"

definition np_unique :: "rat list \<Rightarrow> rat list" where
  "np_unique xs = sorted_list_of_set (set xs)"

definition linear_bins :: "rat list \<Rightarrow> int \<Rightarrow> error + (rat list option \<times> ustr option)" where
  "linear_bins v k =
     (let vmin = Min (set v); vmax = Max (set v)
      in if vmin = vmax
         then Inr (Some [fsub vmin 1, vmin, fadd vmax 1], Some (u ''Linear''))
         else (case linspace vmin vmax (k + 1) of
                 Inl e \<Rightarrow> Inl e
               | Inr bins \<Rightarrow> Inr (Some bins, Some (u ''Linear''))))"

definition make_bins ::
  "rat option list \<Rightarrow> ustr \<Rightarrow> int \<Rightarrow> error + (rat list option \<times> ustr option)" where
  "make_bins values mode k =
     (let v = dropna values
      in if length v = 0 then Inr (None, None)
         else if mode = u ''quantile'' then
           (case linspace 0 1 (k + 1) of
              Inl e \<Rightarrow> Inl e
            | Inr qs \<Rightarrow>
                (case np_quantile v qs of
                   Inl e \<Rightarrow> Inl e
                 | Inr q \<Rightarrow>
                     (let bins = np_unique q
                      in if length bins \<ge> 3 then Inr (Some bins, Some (u ''Quantiles''))
                         else linear_bins v k)))
         else linear_bins v k)"

section \<open>The colour of a feature\<close>

definition value_range :: "rat list \<Rightarrow> rat \<times> rat" where
  "value_range vals = (if length vals = 0 then (0, 1) else (Min (set vals), Max (set vals)))"




section \<open>main\<close>

definition COUNTY_NAME_FIELD :: ustr where
  "COUNTY_NAME_FIELD = u ''NAME_1''"

definition COLOR_MODE :: ustr where
  "COLOR_MODE = u ''quantile''"

definition N_QUANTILES :: int where
  "N_QUANTILES = 5"

text \<open>
  What \<open>main\<close> computes up to the two renderers: the merged frame, the names of the
  report, the bins and the label of the scale, and the range of the colour ramp. The
  value a feature carries in \<open>merged.to_json()\<close> is \<open>null\<close> for NaN and a float otherwise.
\<close>

record 'g outcome =
  merged :: "'g merged_row list"
  reported :: "ustr list"
  bins :: "rat list option"
  scale_label :: "ustr option"
  vrange :: "rat \<times> rat"


definition main :: "runtime \<Rightarrow> frame \<Rightarrow> 'g geoframe \<Rightarrow> error + 'g outcome" where
  "main rt csv geo =
     (case load_wordcounts rt csv of
        Inl e \<Rightarrow> Inl e
      | Inr wc \<Rightarrow>
          (case load_geo rt geo COUNTY_NAME_FIELD of
             Inl e \<Rightarrow> Inl e
           | Inr gdf \<Rightarrow>
               (let m = merge_left gdf (key_value wc)
                in case report (missing_values m) of
                     Inl e \<Rightarrow> Inl e
                   | Inr names \<Rightarrow>
                       (case make_bins (map value m) COLOR_MODE N_QUANTILES of
                          Inl e \<Rightarrow> Inl e
                        | Inr (b, l) \<Rightarrow>
                            Inr \<lparr>merged = m, reported = names, bins = b, scale_label = l,
                                 vrange = value_range (dropna (map value m))\<rparr>))))"


text \<open>
  What the idempotence of \<open>norm_county_name\<close> needs of the Unicode lowercase table: a
  code point of a lowercase form is its own lowercase form; the lowercase form of a code
  point that is no white space is not empty and holds no white space; and U+2019 and
  U+2013 occur in the lowercase forms of themselves only.
\<close>

definition lower_table_ok :: "runtime \<Rightarrow> bool" where
  "lower_table_ok rt \<longleftrightarrow>
     (\<forall>c d. 0x80 \<le> c \<and> d \<in> set (lower_table rt c) \<longrightarrow>
        lower_cp rt d = [d] \<and>
        (\<not> isspace c \<longrightarrow> \<not> isspace d) \<and>
        (c \<noteq> 0x2019 \<and> c \<noteq> 0x2013 \<longrightarrow> d \<noteq> 0x2019 \<and> d \<noteq> 0x2013)) \<and>
     (\<forall>c. 0x80 \<le> c \<and> \<not> isspace c \<longrightarrow> lower_table rt c \<noteq> [])"

text \<open>
  A runtime to run the model on examples: outside ASCII it lowercases nothing, and it
  reads no text as a number. On ASCII names and numeric cells no field of it is consulted.
\<close>

definition example_runtime :: runtime where
  "example_runtime =
     \<lparr>lower_table = (\<lambda>c. [c]), int_str = (\<lambda>i. []), float_str = (\<lambda>r. []),
      parse_number = (\<lambda>s. None), viridis_hex = (\<lambda>t. [])\<rparr>"

section \<open>Properties of make\_bins\<close>

text \<open>
  C7. When no value is present (the series is empty or holds only NaN), \<open>make_bins\<close>
  returns \<open>(None, None)\<close>, no bins and no label, and raises nothing, whatever the mode
  and \<open>k\<close>.
\<close>

theorem make_bins_empty:
  "dropna values = [] \<Longrightarrow> make_bins values mode k = Inr (None, None)"
  by (simp add: make_bins_def)

theorem make_bins_empty_witness:
  "dropna [None, None] = [] \<and> make_bins [None, None] (u ''quantile'') 5 = Inr (None, None)"
  using make_bins_empty [of "[None, None]" "u ''quantile''" 5] by (simp add: dropna_def)

lemma round64_0: "round64 0 = 0"
  by (simp add: round64_def)

lemma lerp_same:
  assumes "round64 c = c"
  shows "lerp c c t = c"
  using assms by (simp add: lerp_def fsub_def fmul_def fadd_def round64_0)

lemma sort_const:
  assumes "set v = {c}"
  shows "sort v = replicate (length v) c"
proof -
  have "set (sort v) = {c}" using assms by simp
  then have "sort v = replicate (length (sort v)) c"
    by (metis replicate_eqI singletonD)
  then show ?thesis by simp
qed

lemma item_replicate:
  assumes "0 < n" "- 1 \<le> i" "i < int n"
  shows "item (replicate n c) i = c"
  using assms by (auto simp: item_def)

lemma quantile_at_const:
  assumes "set v = {c}" "round64 c = c"
  shows "quantile_at v q = c"
proof -
  have "v \<noteq> []" using assms(1) by auto
  then obtain m where m: "length v = Suc m" by (cases v) auto
  define vi where "vi = fmul (of_nat m) q"
  define p where "p = (if of_nat m \<le> vi then - 1 else if vi < 0 then 0 else \<lfloor>vi\<rfloor>)"
  define x where "x = (if of_nat m \<le> vi then - 1 else if vi < 0 then 0 else \<lfloor>vi\<rfloor> + 1)"
  have fl: "\<lfloor>vi\<rfloor> < int m" if "\<not> of_nat m \<le> vi"
  proof -
    from that have "vi < of_int (int m)" by simp
    then show ?thesis by (simp only: floor_less_iff)
  qed
  have nn: "0 \<le> \<lfloor>vi\<rfloor>" if "\<not> vi < 0" using that by simp
  have pb: "- 1 \<le> p \<and> p < int (Suc m)"
  proof (cases "of_nat m \<le> vi \<or> vi < 0")
    case True
    then show ?thesis by (auto simp: p_def)
  next
    case False
    then have "p = \<lfloor>vi\<rfloor>" "0 \<le> \<lfloor>vi\<rfloor>" "\<lfloor>vi\<rfloor> < int m"
      using fl nn by (simp_all add: p_def)
    then show ?thesis by linarith
  qed
  have xb: "- 1 \<le> x \<and> x < int (Suc m)"
  proof (cases "of_nat m \<le> vi \<or> vi < 0")
    case True
    then show ?thesis by (auto simp: x_def)
  next
    case False
    then have "x = \<lfloor>vi\<rfloor> + 1" "0 \<le> \<lfloor>vi\<rfloor>" "\<lfloor>vi\<rfloor> < int m"
      using fl nn by (simp_all add: x_def)
    then show ?thesis by linarith
  qed
  have ip: "item (replicate (Suc m) c) p = c" using item_replicate[of "Suc m" p c] pb by simp
  have ix: "item (replicate (Suc m) c) x = c" using item_replicate[of "Suc m" x c] xb by simp
  have "quantile_at v q = lerp (item (replicate (Suc m) c) p) (item (replicate (Suc m) c) x)
          (fsub vi (of_int p))"
    by (simp add: quantile_at_def Let_def sort_const[OF assms(1)] m vi_def p_def x_def
          del: replicate_Suc)
  then show ?thesis by (simp only: ip ix lerp_same[OF assms(2)])
qed


lemma cut_points_5:
  "linspace 0 1 6 =
     Inr [0, 3602879701896397 / 18014398509481984, 3602879701896397 / 9007199254740992,
          1351079888211149 / 2251799813685248, 3602879701896397 / 4503599627370496, 1]"
  by code_simp

lemma np_quantile_5:
  "linspace 0 1 6 = Inr qs \<Longrightarrow> np_quantile v qs = Inr (map (quantile_at v) qs)"
  by (auto simp: cut_points_5 np_quantile_def)

lemma np_unique_replicate: "length (np_unique (replicate n c)) \<le> 1"
  by (simp add: np_unique_def set_replicate_conv_if)

lemma linear_bins_const:
  "set v = {c} \<Longrightarrow>
     linear_bins v k = Inr (Some [round64 (c - 1), c, round64 (c + 1)], Some (u ''Linear''))"
  by (simp add: linear_bins_def fsub_def fadd_def)

lemma make_bins_const:
  assumes "set (dropna values) = {c}" "round64 c = c"
  shows "make_bins values mode 5 =
           Inr (Some [round64 (c - 1), c, round64 (c + 1)], Some (u ''Linear''))"
proof -
  let ?v = "dropna values"
  have ne: "length ?v \<noteq> 0" using assms(1) by auto
  obtain qs where qs: "linspace 0 1 6 = Inr qs" using cut_points_5 by blast
  have "map (quantile_at ?v) qs = replicate (length qs) c"
    by (intro replicate_eqI) (auto simp: quantile_at_const[OF assms])
  then have "\<not> 3 \<le> length (np_unique (map (quantile_at ?v) qs))"
    using np_unique_replicate[of "length qs" c] by simp
  then show ?thesis
    using ne qs np_quantile_5[OF qs, of ?v] linear_bins_const[OF assms(1)]
    by (simp add: make_bins_def Let_def)
qed


lemma round_half_even_of_int: "round_half_even (of_int m) = m"
  by (simp add: round_half_even_def)

lemma ilog2_of_int:
  assumes "n \<noteq> 0"
  shows "ilog2 (of_int n) = bitlen \<bar>n\<bar> - 1"
proof -
  have pos: "0 < \<bar>n\<bar>" using assms by simp
  have q: "quotient_of \<bar>of_int n :: rat\<bar> = (\<bar>n\<bar>, 1)"
    by (simp flip: of_int_abs)
  have b1: "bitlen 1 = 1" by (simp add: bitlen_alt_def)
  have ge: "1 \<le> bitlen \<bar>n\<bar>" using pos by (auto simp: bitlen_alt_def)
  have "(2::int) ^ nat (bitlen \<bar>n\<bar> - 1) \<le> \<bar>n\<bar>" using bitlen_bounds[OF pos] by blast
  then have "(of_int ((2::int) ^ nat (bitlen \<bar>n\<bar> - 1)) :: rat) \<le> of_int \<bar>n\<bar>"
    by (simp only: of_int_le_iff)
  then have "(2::rat) powi (bitlen \<bar>n\<bar> - 1) \<le> \<bar>of_int n\<bar>"
    using ge by (simp add: power_int_def)
  then show ?thesis by (simp add: ilog2_def q b1)
qed

lemma round64_of_int:
  assumes "\<bar>n\<bar> < 2 ^ 53"
  shows "round64 (of_int n) = of_int n"
proof (cases "n = 0")
  case True
  then show ?thesis by (simp add: round64_def)
next
  case False
  define e where "e = bitlen \<bar>n\<bar> - 1"
  have pos: "0 < \<bar>n\<bar>" using False by simp
  have e0: "0 \<le> e" using pos by (auto simp: e_def bitlen_alt_def)
  have "bitlen \<bar>n\<bar> \<le> 53"
    using assms by (simp add: bitlen_le_iff_power)
  then have e52: "e \<le> 52" by (simp add: e_def)
  define k where "k = nat (52 - e)"
  have ulp: "(2::rat) powi (e - 52) = 1 / 2 ^ k"
    using e52 by (cases "e = 52") (simp_all add: power_int_def k_def inverse_eq_divide power_one_over)
  have d: "of_int n / (1 / 2 ^ k) = (of_int (n * 2 ^ k) :: rat)" by simp
  have "round64 (of_int n) = of_int (round_half_even (of_int n / (1 / 2 ^ k))) * (1 / 2 ^ k)"
    using False e0 by (simp add: round64_def Let_def ilog2_of_int e_def[symmetric] ulp max_def)
  also have "\<dots> = of_int (n * 2 ^ k) * (1 / 2 ^ k)"
    by (simp only: d round_half_even_of_int)
  also have "\<dots> = of_int n" by simp
  finally show ?thesis .
qed

lemma round64_2_53: "round64 (2 ^ 53) = 2 ^ 53" "round64 (- (2 ^ 53)) = - (2 ^ 53)"
  by code_simp+

lemma round64_of_int_le:
  assumes "\<bar>n\<bar> \<le> 2 ^ 53"
  shows "round64 (of_int n) = of_int n"
proof (cases "\<bar>n\<bar> < 2 ^ 53")
  case True
  then show ?thesis by (rule round64_of_int)
next
  case False
  with assms have "n = 2 ^ 53 \<or> n = - (2 ^ 53)" by linarith
  then show ?thesis using round64_2_53 by auto
qed


text \<open>
  C6, amended. When the present values are all one float64 number \<open>c\<close>, every quantile
  cut point is \<open>c\<close>, so \<open>make_bins\<close> with \<open>k = 5\<close> falls back and returns the label
  "Linear" with the three boundaries \<open>c - 1\<close>, \<open>c\<close>, \<open>c + 1\<close> as float64 computes them,
  the two outer ones rounded; in the linear mode it returns the same. They are exactly
  \<open>[c - 1, c, c + 1]\<close> when \<open>c\<close> is an integer of magnitude below \<open>2^53\<close>.
\<close>

theorem make_bins_identical:
  assumes "set (dropna values) = {c}" and "round64 c = c"
  shows "make_bins values mode 5 =
           Inr (Some [round64 (c - 1), c, round64 (c + 1)], Some (u ''Linear'')) \<and>
         (\<forall>n. c = of_int n \<and> \<bar>n\<bar> < 2 ^ 53 \<longrightarrow>
            make_bins values mode 5 = Inr (Some [c - 1, c, c + 1], Some (u ''Linear'')))"
proof (intro conjI allI impI)
  show g: "make_bins values mode 5 =
           Inr (Some [round64 (c - 1), c, round64 (c + 1)], Some (u ''Linear''))"
    by (rule make_bins_const[OF assms])
  fix n :: int
  assume a: "c = of_int n \<and> \<bar>n\<bar> < 2 ^ 53"
  then have "\<bar>n - 1\<bar> \<le> 2 ^ 53" "\<bar>n + 1\<bar> \<le> 2 ^ 53" by linarith+
  then have "round64 (of_int (n - 1)) = of_int (n - 1)" "round64 (of_int (n + 1)) = of_int (n + 1)"
    by (simp_all only: round64_of_int_le)
  then have "round64 (c - 1) = c - 1" "round64 (c + 1) = c + 1" using a by simp_all
  then show "make_bins values mode 5 = Inr (Some [c - 1, c, c + 1], Some (u ''Linear''))"
    using g by simp
qed

theorem make_bins_identical_witness:
  "set (dropna (map Some [100, 100, 100, 100, 100])) = {100} \<and> round64 100 = 100 \<and>
   (100 :: rat) = of_int 100 \<and> \<bar>100 :: int\<bar> < 2 ^ 53 \<and>
   make_bins (map Some [100, 100, 100, 100, 100]) (u ''quantile'') 5 =
     Inr (Some [99, 100, 101], Some (u ''Linear''))"
proof -
  have h: "set (dropna (map Some [100, 100, 100, 100, 100 :: rat])) = {100}"
    by (simp add: dropna_def)
  have r: "round64 100 = 100" using round64_of_int[of 100] by simp
  have i: "(100 :: rat) = of_int 100 \<and> \<bar>100 :: int\<bar> < 2 ^ 53" by simp
  from make_bins_identical [OF h r, of "u ''quantile''"] i
  have "make_bins (map Some [100, 100, 100, 100, 100]) (u ''quantile'') 5 =
     Inr (Some [100 - 1, 100, 100 + 1], Some (u ''Linear''))" by blast
  then show ?thesis using h r by simp
qed

text \<open>
  C6, as stated, fails: float64 has no number between \<open>10^16 - 2\<close> and \<open>10^16\<close> nor
  between \<open>10^16\<close> and \<open>10^16 + 2\<close>, and both \<open>10^16 - 1\<close> and \<open>10^16 + 1\<close> round to
  \<open>10^16\<close>: five values \<open>10^16\<close> give three equal boundaries.
\<close>

theorem make_bins_identical_counterexample:
  "make_bins (map Some [10000000000000000, 10000000000000000, 10000000000000000,
                        10000000000000000, 10000000000000000]) (u ''quantile'') 5 =
     Inr (Some [10000000000000000, 10000000000000000, 10000000000000000], Some (u ''Linear''))"
  by code_simp



lemma linspace_6: "\<exists>ys. linspace a b 6 = Inr ys \<and> length ys = 6 \<and> last ys = b"
  by (simp add: linspace_def Let_def)


lemma linear_bins_5_total: "\<exists>b l. linear_bins v 5 = Inr (b, l)"
  using linspace_6[of "Min (set v)" "Max (set v)"] by (auto simp: linear_bins_def Let_def)

lemma make_bins_5_total: "\<exists>b l. make_bins values (u ''quantile'') 5 = Inr (b, l)"
proof -
  obtain qs where qs: "linspace 0 1 6 = Inr qs" using cut_points_5 by blast
  show ?thesis
    using linear_bins_5_total[of "dropna values"] np_quantile_5[OF qs, of "dropna values"] qs
    by (auto simp: make_bins_def Let_def)
qed




text \<open>
  In float64 the six boundaries of the "Linear" fallback need not increase strictly:
  with \<open>u = 2^-52\<close>, the values 1, \<open>1 + u\<close> and nine times \<open>1 + 2u\<close> have the cut points
  1 and \<open>1 + 2u\<close>, and \<open>np.linspace\<close> from 1 to \<open>1 + 2u\<close> has only three numbers to choose
  from.
\<close>

lemma linear_bins_not_strict_example:
  "make_bins (map Some [1, 4503599627370497 / 4503599627370496,
       2251799813685249 / 2251799813685248, 2251799813685249 / 2251799813685248,
       2251799813685249 / 2251799813685248, 2251799813685249 / 2251799813685248,
       2251799813685249 / 2251799813685248, 2251799813685249 / 2251799813685248,
       2251799813685249 / 2251799813685248, 2251799813685249 / 2251799813685248,
       2251799813685249 / 2251799813685248]) (u ''quantile'') 5 =
     Inr (Some [1, 1, 4503599627370497 / 4503599627370496, 4503599627370497 / 4503599627370496,
                2251799813685249 / 2251799813685248, 2251799813685249 / 2251799813685248],
          Some (u ''Linear''))"
  by code_simp

section \<open>Properties of the merge\<close>

lemma length_merge_row: "length (merge_row g wc) = max 1 (length (matches (key g) wc))"
  by (cases "matches (key g) wc") (simp_all add: merge_row_def)

lemma length_merge_left:
  "length (merge_left gdf wc) = sum_list (map (\<lambda>g. max 1 (length (matches (key g) wc))) gdf)"
  by (induction gdf) (simp_all add: merge_left_def length_merge_row)

lemma sum_list_max1:
  fixes f :: "'a \<Rightarrow> nat"
  shows "length xs \<le> sum_list (map (\<lambda>x. max 1 (f x)) xs) \<and>
         (sum_list (map (\<lambda>x. max 1 (f x)) xs) = length xs \<longleftrightarrow> (\<forall>x \<in> set xs. f x \<le> 1))"
proof (induction xs)
  case Nil
  then show ?case by simp
next
  case (Cons a xs)
  then show ?case by (auto simp: max_def)
qed

lemma value_merge_row:
  "map value (merge_row g wc) =
     (if matches (key g) wc = [] then [None] else map snd (matches (key g) wc))"
  by (simp add: merge_row_def geo_row.defs comp_def)

lemma truncate_extend: "geo_row.truncate (geo_row.extend g m) = (g :: 'g geo_row)"
  by (simp add: geo_row.defs)

lemma truncate_merge_row:
  "map geo_row.truncate (merge_row g wc) = replicate (max 1 (length (matches (key g) wc))) g"
proof (cases "matches (key g) wc = []")
  case True
  then show ?thesis by (simp add: merge_row_def truncate_extend)
next
  case False
  then have "max 1 (length (matches (key g) wc)) = length (matches (key g) wc)"
    by (cases "matches (key g) wc") simp_all
  then show ?thesis using False
    by (simp add: merge_row_def comp_def truncate_extend map_replicate_const)
qed

lemma truncate_merge_left:
  "map geo_row.truncate (merge_left gdf wc) =
     concat (map (\<lambda>g. replicate (max 1 (length (matches (key g) wc))) g) gdf)"
  by (induction gdf) (simp_all add: merge_left_def truncate_merge_row)

lemma value_merge_left:
  "map value (merge_left gdf wc) =
     concat (map (\<lambda>g. if matches (key g) wc = [] then [None] else map snd (matches (key g) wc)) gdf)"
  by (induction gdf) (simp_all add: merge_left_def value_merge_row)

text \<open>
  C1, amended. The merge gives every geometry row, in the order of the geometry frame,
  one joined row for each value row of the same key, carrying the fields of the geometry
  row and the value of that value row, in the order of the value frame, and one joined
  row with NaN when there is none. So the merged frame is at least as long as the
  geometry frame, and as long exactly when no geometry key occurs on two value rows.
\<close>

theorem merge_left_length:
  "map geo_row.truncate (merge_left gdf wc) =
     concat (map (\<lambda>g. replicate (max 1 (length (matches (key g) wc))) g) gdf) \<and>
   map value (merge_left gdf wc) =
     concat (map (\<lambda>g. if matches (key g) wc = [] then [None]
                        else map snd (matches (key g) wc)) gdf) \<and>
   length (merge_left gdf wc) = sum_list (map (\<lambda>g. max 1 (length (matches (key g) wc))) gdf) \<and>
   length gdf \<le> length (merge_left gdf wc) \<and>
   (length (merge_left gdf wc) = length gdf \<longleftrightarrow>
      (\<forall>g \<in> set gdf. length (matches (key g) wc) \<le> 1))"
  using sum_list_max1[of gdf "\<lambda>g. length (matches (key g) wc)"]
  by (simp only: truncate_merge_left value_merge_left length_merge_left simp_thms)

theorem merge_left_length_witness:
  "merge_left
      [\<lparr>geo_name = Text (u ''Offaly''), geometry = (), key = u ''offaly''\<rparr>,
       \<lparr>geo_name = Text (u ''Longford''), geometry = (), key = u ''longford''\<rparr>]
      [(u ''offaly'', Some 500), (u ''cork'', Some 7)] =
     [\<lparr>geo_name = Text (u ''Offaly''), geometry = (), key = u ''offaly'', value = Some 500\<rparr>,
      \<lparr>geo_name = Text (u ''Longford''), geometry = (), key = u ''longford'', value = None\<rparr>] \<and>
   length (merge_left
      [\<lparr>geo_name = Text (u ''Offaly''), geometry = (), key = u ''offaly''\<rparr>,
       \<lparr>geo_name = Text (u ''Longford''), geometry = (), key = u ''longford''\<rparr>]
      [(u ''offaly'', Some 500), (u ''cork'', Some 7)]) = 2 \<and>
   length (matches (u ''offaly'') [(u ''offaly'', Some 500), (u ''cork'', Some 7)]) \<le> 1 \<and>
   length (matches (u ''longford'') [(u ''offaly'', Some 500), (u ''cork'', Some 7)]) \<le> 1"
proof -
  let ?gdf = "[\<lparr>geo_name = Text (u ''Offaly''), geometry = (), key = u ''offaly''\<rparr>,
       \<lparr>geo_name = Text (u ''Longford''), geometry = (), key = u ''longford''\<rparr>]"
  let ?wc = "[(u ''offaly'', Some (500::rat)), (u ''cork'', Some 7)]"
  note t = merge_left_length [of ?gdf ?wc]
  have m: "length (matches (u ''offaly'') ?wc) \<le> 1 \<and> length (matches (u ''longford'') ?wc) \<le> 1"
    by (simp add: matches_def u_def)
  then have len: "length (merge_left ?gdf ?wc) = 2" using t by simp
  have tr: "map geo_row.truncate (merge_left ?gdf ?wc) = ?gdf"
    using t by (simp add: matches_def u_def)
  have vl: "map value (merge_left ?gdf ?wc) = [Some 500, None]"
    using t by (simp add: matches_def u_def)
  obtain r1 r2 where r: "merge_left ?gdf ?wc = [r1, r2]"
    using len by (auto simp: length_Suc_conv numeral_2_eq_2)
  have "r1 = \<lparr>geo_name = Text (u ''Offaly''), geometry = (), key = u ''offaly'', value = Some 500\<rparr>"
    "r2 = \<lparr>geo_name = Text (u ''Longford''), geometry = (), key = u ''longford'', value = None\<rparr>"
    using tr vl unfolding r by (cases r1; cases r2; simp add: geo_row.defs)+
  then show ?thesis using r len m by simp
qed

text \<open>
  C1, as stated, fails: one geometry row and two value rows of its key give two joined
  rows.
\<close>

theorem merge_left_length_counterexample:
  "length (merge_left
      [\<lparr>geo_name = Text (u ''Offaly''), geometry = (), key = u ''offaly''\<rparr>]
      [(u ''offaly'', Some 500), (u ''offaly'', Some 300)])
   \<noteq> length [\<lparr>geo_name = Text (u ''Offaly''), geometry = (), key = u ''offaly''\<rparr>]"
  by (simp add: merge_left_def merge_row_def matches_def)

lemma key_merge_row: "r \<in> set (merge_row g wc) \<Longrightarrow> key r = key g"
  by (auto simp: merge_row_def geo_row.defs split: if_splits)

lemma filter_merge_row:
  "filter (\<lambda>r. key r = k) (merge_row g wc) = (if key g = k then merge_row g wc else [])"
  by (auto simp: filter_empty_conv key_merge_row intro: filter_True)

text \<open>
  C2, amended. Nothing is overwritten: the joined rows of a key carry, for each geometry
  row of that key in turn, the values of all the value rows of that key, in the order of
  the value frame (and one NaN when there is no such value row).
\<close>

theorem merge_left_keeps_every_value:
  "map value (filter (\<lambda>r. key r = k) (merge_left gdf wc)) =
     concat (map (\<lambda>g. if matches k wc = [] then [None] else map snd (matches k wc))
               (filter (\<lambda>g. key g = k) gdf))"
proof (induction gdf)
  case Nil
  then show ?case by (simp add: merge_left_def)
next
  case (Cons g gdf)
  then show ?case
    by (simp add: merge_left_def filter_merge_row value_merge_row)
qed

subsection \<open>A merge with two value rows of one key\<close>

lemmas norm_defs = norm_county_name_def u_def strip_def lstrip_def rstrip_def isspace_def
  lower_def lower_cp_def startswith_def replace_def dict_get_def aliases_def

lemma ex_norm1: "norm_county_name rt (Text (u ''Offaly'')) = u ''offaly''"
  by (simp add: norm_defs)

lemma ex_norm2: "norm_county_name rt (Text (u ''County Offaly'')) = u ''offaly''"
  by (simp add: norm_defs)

lemma ex_cols: "county_column rt \<lparr>columns = [u ''County'', u ''ProseWords''], rows = rs\<rparr> = Some (u ''County'')
  \<and> words_column rt \<lparr>columns = [u ''County'', u ''ProseWords''], rows = rs\<rparr> = Some (u ''ProseWords'')"
  by (simp add: county_column_def words_column_def lower_names_def py_or_def u_def lower_def lower_cp_def)

lemma ex_load:
  "load_wordcounts rt
     \<lparr>columns = [u ''County'', u ''ProseWords''],
      rows = [[Text (u ''Offaly''), PyInt 500], [Text (u ''County Offaly''), PyInt 300]]\<rparr>
   = Inr [\<lparr>county = Text (u ''Offaly''), wc_value = Some 500, wc_key = u ''offaly''\<rparr>,
          \<lparr>county = Text (u ''County Offaly''), wc_value = Some 300, wc_key = u ''offaly''\<rparr>]"
  apply (simp add: load_wordcounts_def ex_cols Let_def getitem_def ex_norm1 ex_norm2)
  apply (simp add: u_def)
  done

lemma ex_geo:
  "load_geo rt \<lparr>gcolumns = [u ''NAME_1''], features = [([Text (u ''Offaly'')], ())]\<rparr> COUNTY_NAME_FIELD
   = Inr [\<lparr>geo_name = Text (u ''Offaly''), geometry = (), key = u ''offaly''\<rparr>]"
  by (simp add: load_geo_def COUNTY_NAME_FIELD_def getitem_def ex_norm1)

lemma ex_merge:
  "merge_left [\<lparr>geo_name = Text (u ''Offaly''), geometry = (), key = u ''offaly''\<rparr>]
      (key_value [\<lparr>county = Text (u ''Offaly''), wc_value = Some 500, wc_key = u ''offaly''\<rparr>,
          \<lparr>county = Text (u ''County Offaly''), wc_value = Some 300, wc_key = u ''offaly''\<rparr>])
   = [\<lparr>geo_name = Text (u ''Offaly''), geometry = (), key = u ''offaly'', value = Some 500\<rparr>,
             \<lparr>geo_name = Text (u ''Offaly''), geometry = (), key = u ''offaly'', value = Some 300\<rparr>]"
  by (simp add: merge_left_def merge_row_def matches_def key_value_def geo_row.defs)

text \<open>
  C2, as stated, fails: the rows "Offaly", 500 and "County Offaly", 300 have the key of
  the one feature "Offaly"; the merged frame holds both values, the earlier one first.
\<close>

theorem last_value_wins_counterexample:
  "load_wordcounts example_runtime
     \<lparr>columns = [u ''County'', u ''ProseWords''],
      rows = [[Text (u ''Offaly''), PyInt 500], [Text (u ''County Offaly''), PyInt 300]]\<rparr>
   = Inr [\<lparr>county = Text (u ''Offaly''), wc_value = Some 500, wc_key = u ''offaly''\<rparr>,
          \<lparr>county = Text (u ''County Offaly''), wc_value = Some 300, wc_key = u ''offaly''\<rparr>] \<and>
   load_geo example_runtime
     \<lparr>gcolumns = [u ''NAME_1''], features = [([Text (u ''Offaly'')], ())]\<rparr> COUNTY_NAME_FIELD
   = Inr [\<lparr>geo_name = Text (u ''Offaly''), geometry = (), key = u ''offaly''\<rparr>] \<and>
   merge_left [\<lparr>geo_name = Text (u ''Offaly''), geometry = (), key = u ''offaly''\<rparr>]
      (key_value [\<lparr>county = Text (u ''Offaly''), wc_value = Some 500, wc_key = u ''offaly''\<rparr>,
          \<lparr>county = Text (u ''County Offaly''), wc_value = Some 300, wc_key = u ''offaly''\<rparr>])
   = [\<lparr>geo_name = Text (u ''Offaly''), geometry = (), key = u ''offaly'', value = Some 500\<rparr>,
      \<lparr>geo_name = Text (u ''Offaly''), geometry = (), key = u ''offaly'', value = Some 300\<rparr>]"
  by (intro conjI ex_load ex_geo ex_merge)

section \<open>Properties of the report\<close>

lemma missing_merge_row:
  "set (map geo_name (filter (\<lambda>r. value r = None) (merge_row g wc))) =
     (if matches (key g) wc = [] \<or> (key g, None) \<in> set wc then {geo_name g} else {})"
proof (cases "matches (key g) wc = []")
  case True
  then show ?thesis by (simp add: merge_row_def geo_row.defs)
next
  case False
  let ?f = "\<lambda>w. geo_row.extend g \<lparr>value = snd w\<rparr>"
  let ?ms = "filter (\<lambda>w. snd w = None) (matches (key g) wc)"
  have 1: "filter (\<lambda>r. value r = None) (map ?f (matches (key g) wc)) = map ?f ?ms"
    by (simp add: filter_map comp_def geo_row.defs)
  have 2: "set (map geo_name (map ?f ?ms)) = (if ?ms = [] then {} else {geo_name g})"
    by (cases ?ms) (auto simp: geo_row.defs simp del: filter.simps)
  have 3: "?ms \<noteq> [] \<longleftrightarrow> (key g, None) \<in> set wc"
    by (force simp: matches_def filter_empty_conv)
  have "set (map geo_name (filter (\<lambda>r. value r = None) (merge_row g wc))) =
          set (map geo_name (map ?f ?ms))"
    using False by (simp only: merge_row_def if_False 1)
  also have "\<dots> = (if ?ms = [] then {} else {geo_name g})" by (rule 2)
  also have "\<dots> = (if (key g, None) \<in> set wc then {geo_name g} else {})"
    using 3 by auto
  finally show ?thesis using False by (simp only: if_False simp_thms)
qed

lemma set_missing_values:
  "set (missing_values (merge_left gdf wc)) =
     {geo_name g | g. g \<in> set gdf \<and> (matches (key g) wc = [] \<or> (key g, None) \<in> set wc)}"
proof -
  have "set (missing_values (merge_left gdf wc)) =
          (\<Union>g \<in> set gdf. set (map geo_name (filter (\<lambda>r. value r = None) (merge_row g wc))))"
    by (induction gdf) (simp_all add: missing_values_def merge_left_def)
  then show ?thesis unfolding missing_merge_row by auto
qed

lemma report_texts:
  assumes "\<forall>c \<in> set mv. is_Text c"
  shows "\<exists>names. report mv = Inr names \<and> sorted_wrt (<) names \<and> set names = the_Text ` set mv"
  using assms by (auto simp: report_def list_ex_iff)

text \<open>
  C4, amended. When the two loaders succeed and the name of every feature is a string,
  \<open>main\<close> goes on past the report, and the names it prints are those of the regions
  that lack a value (no value row of their key, or one whose value is NaN), each once, in
  ascending order of the strings.
\<close>

theorem report_sorted_names:
  assumes "load_wordcounts rt csv = Inr wc"
    and "load_geo rt geo COUNTY_NAME_FIELD = Inr gdf"
    and "\<forall>g \<in> set gdf. is_Text (geo_name g)"
  shows "\<exists>out. main rt csv geo = Inr out \<and>
           merged out = merge_left gdf (key_value wc) \<and>
           sorted_wrt (<) (reported out) \<and>
           set (reported out) =
             {the_Text (geo_name g) | g. g \<in> set gdf \<and>
                (matches (key g) (key_value wc) = [] \<or> (key g, None) \<in> set (key_value wc))}"
proof -
  let ?m = "merge_left gdf (key_value wc)"
  have "\<forall>c \<in> set (missing_values ?m). is_Text c"
    using assms(3) by (auto simp: set_missing_values)
  from report_texts[OF this] obtain names where
    n: "report (missing_values ?m) = Inr names" "sorted_wrt (<) names"
       "set names = the_Text ` set (missing_values ?m)"
    by blast
  obtain b l where b: "make_bins (map value ?m) COLOR_MODE N_QUANTILES = Inr (b, l)"
    using make_bins_5_total[of "map value ?m"] by (auto simp: COLOR_MODE_def N_QUANTILES_def)
  have "main rt csv geo =
          Inr \<lparr>merged = ?m, reported = names, bins = b, scale_label = l,
               vrange = value_range (dropna (map value ?m))\<rparr>"
    using assms(1,2) n(1) b by (simp add: main_def Let_def)
  moreover have "set names =
      {the_Text (geo_name g) | g. g \<in> set gdf \<and>
         (matches (key g) (key_value wc) = [] \<or> (key g, None) \<in> set (key_value wc))}"
    unfolding n(3) set_missing_values by auto
  ultimately show ?thesis using n(2) by simp
qed

subsection \<open>Two runs of main with regions that lack a value\<close>

lemma ex_norm3: "norm_county_name rt (Text (u ''Longford'')) = u ''longford''"
  by (simp add: norm_defs)

lemma ex_norm4: "norm_county_name rt (Text (u ''Cork'')) = u ''cork''"
  by (simp add: norm_defs)

lemma ex_norm5: "norm_county_name rt (Text (u ''Kings County'')) = u ''offaly''"
  by (simp add: norm_defs)

lemma ex_load2:
  "load_wordcounts rt
     \<lparr>columns = [u ''County'', u ''ProseWords''], rows = [[Text (u ''Kings County''), PyInt 300]]\<rparr>
   = Inr [\<lparr>county = Text (u ''Kings County''), wc_value = Some 300, wc_key = u ''offaly''\<rparr>]"
  apply (simp add: load_wordcounts_def ex_cols Let_def getitem_def ex_norm5)
  apply (simp add: u_def)
  done

lemma ex_geo2:
  "load_geo rt \<lparr>gcolumns = [u ''NAME_1''],
       features = [([Text (u ''Offaly'')], ()), ([Text (u ''Longford'')], ())]\<rparr> COUNTY_NAME_FIELD
   = Inr [\<lparr>geo_name = Text (u ''Offaly''), geometry = (), key = u ''offaly''\<rparr>,
          \<lparr>geo_name = Text (u ''Longford''), geometry = (), key = u ''longford''\<rparr>]"
  by (simp add: load_geo_def COUNTY_NAME_FIELD_def getitem_def ex_norm1 ex_norm3)

theorem report_sorted_names_witness:
  "load_wordcounts example_runtime
     \<lparr>columns = [u ''County'', u ''ProseWords''], rows = [[Text (u ''Kings County''), PyInt 300]]\<rparr>
   = Inr [\<lparr>county = Text (u ''Kings County''), wc_value = Some 300, wc_key = u ''offaly''\<rparr>] \<and>
   load_geo example_runtime \<lparr>gcolumns = [u ''NAME_1''],
       features = [([Text (u ''Offaly'')], ()), ([Text (u ''Longford'')], ())]\<rparr> COUNTY_NAME_FIELD
   = Inr [\<lparr>geo_name = Text (u ''Offaly''), geometry = (), key = u ''offaly''\<rparr>,
          \<lparr>geo_name = Text (u ''Longford''), geometry = (), key = u ''longford''\<rparr>] \<and>
   is_Text (Text (u ''Offaly'')) \<and> is_Text (Text (u ''Longford'')) \<and>
   (\<exists>out. main example_runtime
       \<lparr>columns = [u ''County'', u ''ProseWords''], rows = [[Text (u ''Kings County''), PyInt 300]]\<rparr>
       \<lparr>gcolumns = [u ''NAME_1''],
         features = [([Text (u ''Offaly'')], ()), ([Text (u ''Longford'')], ())]\<rparr> = Inr out \<and>
      sorted_wrt (<) (reported out) \<and>
      set (reported out) = {u ''Longford''})"
proof -
  let ?wc = "[\<lparr>county = Text (u ''Kings County''), wc_value = Some 300, wc_key = u ''offaly''\<rparr>]"
  let ?gdf = "[\<lparr>geo_name = Text (u ''Offaly''), geometry = (), key = u ''offaly''\<rparr>,
          \<lparr>geo_name = Text (u ''Longford''), geometry = (), key = u ''longford''\<rparr>]"
  have h: "\<forall>g \<in> set ?gdf. is_Text (geo_name g)" by simp
  have s: "{the_Text (geo_name g) | g. g \<in> set ?gdf \<and>
             (matches (key g) (key_value ?wc) = [] \<or> (key g, None) \<in> set (key_value ?wc))}
           = {u ''Longford''}"
  proof -
    have "{the_Text (geo_name g) | g. g \<in> set ?gdf \<and>
             (matches (key g) (key_value ?wc) = [] \<or> (key g, None) \<in> set (key_value ?wc))}
          = (\<lambda>g. the_Text (geo_name g)) ` set (filter (\<lambda>g. matches (key g) (key_value ?wc) = []
                \<or> (key g, None) \<in> set (key_value ?wc)) ?gdf)"
      unfolding set_filter by blast
    also have "\<dots> = {u ''Longford''}"
      by (simp add: matches_def key_value_def u_def)
    finally show ?thesis .
  qed
  have c: "\<exists>out. main example_runtime
       \<lparr>columns = [u ''County'', u ''ProseWords''], rows = [[Text (u ''Kings County''), PyInt 300]]\<rparr>
       \<lparr>gcolumns = [u ''NAME_1''],
         features = [([Text (u ''Offaly'')], ()), ([Text (u ''Longford'')], ())]\<rparr> = Inr out \<and>
      sorted_wrt (<) (reported out) \<and>
      set (reported out) = {u ''Longford''}"
    using report_sorted_names [OF ex_load2 [of example_runtime] ex_geo2 [of example_runtime] h]
    unfolding s by blast
  show ?thesis by (intro conjI ex_load2 ex_geo2 c) simp_all
qed

lemma ex_load3:
  "load_wordcounts rt
     \<lparr>columns = [u ''County'', u ''ProseWords''], rows = [[Text (u ''Offaly''), PyInt 500]]\<rparr>
   = Inr [\<lparr>county = Text (u ''Offaly''), wc_value = Some 500, wc_key = u ''offaly''\<rparr>]"
  apply (simp add: load_wordcounts_def ex_cols Let_def getitem_def ex_norm1)
  apply (simp add: u_def)
  done

lemma ex_geo3:
  "load_geo rt \<lparr>gcolumns = [u ''NAME_1''],
       features = [([Text (u ''Longford'')], ()), ([Text (u ''Offaly'')], ()), ([Text (u ''Cork'')], ())]\<rparr>
     COUNTY_NAME_FIELD
   = Inr [\<lparr>geo_name = Text (u ''Longford''), geometry = (), key = u ''longford''\<rparr>,
          \<lparr>geo_name = Text (u ''Offaly''), geometry = (), key = u ''offaly''\<rparr>,
          \<lparr>geo_name = Text (u ''Cork''), geometry = (), key = u ''cork''\<rparr>]"
  by (simp add: load_geo_def COUNTY_NAME_FIELD_def getitem_def ex_norm1 ex_norm3 ex_norm4)

lemma ex_merge3:
  "merge_left [\<lparr>geo_name = Text (u ''Longford''), geometry = (), key = u ''longford''\<rparr>,
          \<lparr>geo_name = Text (u ''Offaly''), geometry = (), key = u ''offaly''\<rparr>,
          \<lparr>geo_name = Text (u ''Cork''), geometry = (), key = u ''cork''\<rparr>]
      (key_value [\<lparr>county = Text (u ''Offaly''), wc_value = Some 500, wc_key = u ''offaly''\<rparr>])
   = [\<lparr>geo_name = Text (u ''Longford''), geometry = (), key = u ''longford'', value = None\<rparr>,
      \<lparr>geo_name = Text (u ''Offaly''), geometry = (), key = u ''offaly'', value = Some 500\<rparr>,
      \<lparr>geo_name = Text (u ''Cork''), geometry = (), key = u ''cork'', value = None\<rparr>]"
  by (simp add: merge_left_def merge_row_def matches_def key_value_def geo_row.defs u_def)

lemma ex_report3:
  "report [Text (u ''Longford''), Text (u ''Cork'')] = Inr [u ''Cork'', u ''Longford'']"
  by (simp add: report_def u_def sorted_list_of_set_sort_remdups)

lemma ex_bins3:
  "make_bins [None, Some 500, None] (u ''quantile'') 5 =
     Inr (Some [499, 500, 501], Some (u ''Linear''))"
  by code_simp

text \<open>
  C4, as stated, fails: the features come in the order Longford, Offaly, Cork and only
  Offaly has a value; the report names Cork before Longford.
\<close>

theorem report_order_counterexample:
  "main example_runtime
     \<lparr>columns = [u ''County'', u ''ProseWords''], rows = [[Text (u ''Offaly''), PyInt 500]]\<rparr>
     \<lparr>gcolumns = [u ''NAME_1''],
       features = [([Text (u ''Longford'')], ()), ([Text (u ''Offaly'')], ()), ([Text (u ''Cork'')], ())]\<rparr>
   = Inr \<lparr>merged =
            [\<lparr>geo_name = Text (u ''Longford''), geometry = (), key = u ''longford'', value = None\<rparr>,
             \<lparr>geo_name = Text (u ''Offaly''), geometry = (), key = u ''offaly'', value = Some 500\<rparr>,
             \<lparr>geo_name = Text (u ''Cork''), geometry = (), key = u ''cork'', value = None\<rparr>],
          reported = [u ''Cork'', u ''Longford''],
          bins = Some [499, 500, 501],
          scale_label = Some (u ''Linear''),
          vrange = (500, 500)\<rparr>"
  by (simp add: main_def ex_load3 ex_geo3 ex_merge3 missing_values_def ex_report3 ex_bins3
        value_range_def dropna_def COLOR_MODE_def N_QUANTILES_def)

section \<open>Properties of load\_wordcounts\<close>

lemma fold_lower_names_None:
  "fold (\<lambda>c m. m(lower rt c \<mapsto> c)) cs m k = None \<longleftrightarrow> m k = None \<and> k \<notin> lower rt ` set cs"
  by (induction cs arbitrary: m) auto

lemma fold_lower_names_Some:
  "fold (\<lambda>c m. m(lower rt c \<mapsto> c)) cs m k = Some c \<Longrightarrow>
     m k = Some c \<or> (c \<in> set cs \<and> lower rt c = k)"
proof (induction cs arbitrary: m)
  case Nil
  then show ?case by simp
next
  case (Cons a cs)
  from Cons.prems have "fold (\<lambda>c m. m(lower rt c \<mapsto> c)) cs (m(lower rt a \<mapsto> a)) k = Some c"
    by (simp only: fold.simps o_apply)
  from Cons.IH[OF this]
  have "(m(lower rt a \<mapsto> a)) k = Some c \<or> (c \<in> set cs \<and> lower rt c = k)" .
  then show ?case by (auto split: if_splits)
qed

lemma lower_names_None: "lower_names rt cs k = None \<longleftrightarrow> k \<notin> lower rt ` set cs"
  by (simp add: lower_names_def fold_lower_names_None)

lemma lower_names_Some: "lower_names rt cs k = Some c \<Longrightarrow> c \<in> set cs \<and> lower rt c = k"
  using fold_lower_names_Some[of rt cs Map.empty k c] by (simp add: lower_names_def)

lemma lower_names_nonempty:
  assumes "lower_names rt cs k = Some c" "k \<noteq> []"
  shows "c \<noteq> []"
  using lower_names_Some[OF assms(1)] assms(2) by (auto simp: lower_def)

lemma words_column_prose:
  assumes "u ''prosewords'' \<in> lower rt ` set (columns df)"
  shows "\<exists>c \<in> set (columns df). words_column rt df = Some c \<and> lower rt c = u ''prosewords''"
proof -
  obtain c where c: "lower_names rt (columns df) (u ''prosewords'') = Some c"
    using assms lower_names_None[of rt "columns df" "u ''prosewords''"] by auto
  have "c \<noteq> []" using lower_names_nonempty[OF c] by (simp add: u_def)
  then have "words_column rt df = Some c" using c by (simp add: words_column_def py_or_def)
  then show ?thesis using lower_names_Some[OF c] by simp
qed

lemma words_column_words:
  assumes "u ''prosewords'' \<notin> lower rt ` set (columns df)"
    and "u ''words'' \<in> lower rt ` set (columns df)"
  shows "\<exists>c \<in> set (columns df). words_column rt df = Some c \<and> lower rt c = u ''words''"
proof -
  have n: "lower_names rt (columns df) (u ''prosewords'') = None"
    using assms(1) by (simp add: lower_names_None)
  obtain c where c: "lower_names rt (columns df) (u ''words'') = Some c"
    using assms(2) lower_names_None[of rt "columns df" "u ''words''"] by auto
  have "words_column rt df = Some c" using c n by (simp add: words_column_def py_or_def)
  then show ?thesis using lower_names_Some[OF c] by simp
qed

lemma words_column_None:
  "words_column rt df = None \<longleftrightarrow>
     u ''prosewords'' \<notin> lower rt ` set (columns df) \<and> u ''words'' \<notin> lower rt ` set (columns df)"
proof (cases "u ''prosewords'' \<in> lower rt ` set (columns df)")
  case True
  then show ?thesis using words_column_prose[OF True] by auto
next
  case False
  show ?thesis
  proof (cases "u ''words'' \<in> lower rt ` set (columns df)")
    case True
    then show ?thesis using words_column_words[OF False True] by auto
  next
    case w: False
    then show ?thesis using False
      by (simp add: words_column_def py_or_def lower_names_None[symmetric])
  qed
qed

lemma load_wordcounts_error:
  "load_wordcounts rt df = Inl e \<longleftrightarrow>
     e = ValueError \<and> (county_column rt df = None \<or> words_column rt df = None)"
  by (auto simp: load_wordcounts_def Let_def)

lemma load_wordcounts_rows:
  assumes "county_column rt df \<noteq> None" "words_column rt df \<noteq> None"
  shows "load_wordcounts rt df = Inr (map (\<lambda>row.
            \<lparr>county = getitem (columns df) row (the (county_column rt df)),
             wc_value = to_numeric rt (getitem (columns df) row (the (words_column rt df))),
             wc_key = norm_county_name rt (getitem (columns df) row (the (county_column rt df)))\<rparr>)
          (rows df))"
  using assms by (simp add: load_wordcounts_def Let_def)

text \<open>
  C8. \<open>load_wordcounts\<close> raises its \<open>ValueError\<close> (the ConfigurationError of the spec)
  exactly when no header lowercases to "county", or none lowercases to "prosewords" and
  none to "words"; \<open>main\<close> then ends with that error, before it loads the geometry or
  merges. Otherwise the loader returns one record for each row, whose value is what
  \<open>to_numeric\<close> makes of the cell of the value column: \<open>None\<close> (NaN) for a text that is
  not a number, the other rows being kept.
\<close>

theorem load_wordcounts_columns:
  "(load_wordcounts rt df = Inl ValueError \<longleftrightarrow>
      u ''county'' \<notin> lower rt ` set (columns df) \<or>
      (u ''prosewords'' \<notin> lower rt ` set (columns df) \<and>
       u ''words'' \<notin> lower rt ` set (columns df))) \<and>
   (load_wordcounts rt df = Inl ValueError \<longrightarrow> main rt df geo = Inl ValueError) \<and>
   (load_wordcounts rt df \<noteq> Inl ValueError \<longrightarrow>
      (\<exists>recs. load_wordcounts rt df = Inr recs \<and> length recs = length (rows df) \<and>
         (\<forall>i < length (rows df).
            wc_value (recs ! i) =
              to_numeric rt (getitem (columns df) (rows df ! i) (the (words_column rt df))) \<and>
            (\<forall>s. getitem (columns df) (rows df ! i) (the (words_column rt df)) = Text s \<and>
                 parse_number rt s = None \<longrightarrow> wc_value (recs ! i) = None))))"
proof (intro conjI impI)
  show "load_wordcounts rt df = Inl ValueError \<longleftrightarrow>
      u ''county'' \<notin> lower rt ` set (columns df) \<or>
      (u ''prosewords'' \<notin> lower rt ` set (columns df) \<and>
       u ''words'' \<notin> lower rt ` set (columns df))"
    by (simp add: load_wordcounts_error words_column_None county_column_def lower_names_None)
next
  assume "load_wordcounts rt df = Inl ValueError"
  then show "main rt df geo = Inl ValueError" by (simp add: main_def)
next
  assume "load_wordcounts rt df \<noteq> Inl ValueError"
  then have "county_column rt df \<noteq> None" "words_column rt df \<noteq> None"
    by (auto simp: load_wordcounts_error)
  from load_wordcounts_rows[OF this]
  show "\<exists>recs. load_wordcounts rt df = Inr recs \<and> length recs = length (rows df) \<and>
         (\<forall>i < length (rows df).
            wc_value (recs ! i) =
              to_numeric rt (getitem (columns df) (rows df ! i) (the (words_column rt df))) \<and>
            (\<forall>s. getitem (columns df) (rows df ! i) (the (words_column rt df)) = Text s \<and>
                 parse_number rt s = None \<longrightarrow> wc_value (recs ! i) = None))"
    by auto
qed

text \<open>
  C9. When a header lowercases to "prosewords", the value column is such a header,
  whether or not another lowercases to "words"; the value column lowercases to "words"
  only when no header lowercases to "prosewords". The values of the records are read
  from that column.
\<close>

theorem words_column_prefers_prosewords:
  "(u ''prosewords'' \<in> lower rt ` set (columns df) \<longrightarrow>
      (\<exists>c \<in> set (columns df). words_column rt df = Some c \<and> lower rt c = u ''prosewords'')) \<and>
   (\<forall>c. words_column rt df = Some c \<and> lower rt c = u ''words'' \<longrightarrow>
      u ''prosewords'' \<notin> lower rt ` set (columns df)) \<and>
   (\<forall>recs. load_wordcounts rt df = Inr recs \<longrightarrow>
      map wc_value recs =
        map (\<lambda>row. to_numeric rt (getitem (columns df) row (the (words_column rt df)))) (rows df))"
proof (intro conjI impI allI)
  assume "u ''prosewords'' \<in> lower rt ` set (columns df)"
  then show "\<exists>c \<in> set (columns df). words_column rt df = Some c \<and> lower rt c = u ''prosewords''"
    by (rule words_column_prose)
next
  fix c
  assume a: "words_column rt df = Some c \<and> lower rt c = u ''words''"
  show "u ''prosewords'' \<notin> lower rt ` set (columns df)"
  proof
    assume "u ''prosewords'' \<in> lower rt ` set (columns df)"
    from words_column_prose[OF this] a have "u ''prosewords'' = u ''words''" by auto
    then show False by (simp add: u_def)
  qed
next
  fix recs
  assume "load_wordcounts rt df = Inr recs"
  then show "map wc_value recs =
        map (\<lambda>row. to_numeric rt (getitem (columns df) row (the (words_column rt df)))) (rows df)"
    by (auto simp: load_wordcounts_def Let_def comp_def split: if_splits)
qed

subsection \<open>Loading example frames\<close>

lemmas col_defs = county_column_def words_column_def lower_names_def py_or_def u_def
  lower_def lower_cp_def

theorem load_wordcounts_columns_witness:
  "load_wordcounts example_runtime
     \<lparr>columns = [u ''County'', u ''PageTitle'', u ''Error''],
      rows = [[Text (u ''Cork''), Text (u ''County Cork''), NaN]]\<rparr> = Inl ValueError \<and>
   main example_runtime
     \<lparr>columns = [u ''County'', u ''PageTitle'', u ''Error''],
      rows = [[Text (u ''Cork''), Text (u ''County Cork''), NaN]]\<rparr>
     \<lparr>gcolumns = [u ''NAME_1''], features = [([Text (u ''Cork'')], ())]\<rparr> = Inl ValueError \<and>
   load_wordcounts example_runtime
     \<lparr>columns = [u ''COUNTY'', u ''words''],
      rows = [[Text (u ''Cork''), PyInt 12], [Text (u ''Kerry''), Text (u ''n/a'')]]\<rparr>
     \<noteq> Inl ValueError \<and>
   (\<exists>recs. load_wordcounts example_runtime
       \<lparr>columns = [u ''COUNTY'', u ''words''],
        rows = [[Text (u ''Cork''), PyInt 12], [Text (u ''Kerry''), Text (u ''n/a'')]]\<rparr> = Inr recs \<and>
      length recs = 2 \<and> (0::nat) < 2 \<and> (1::nat) < 2 \<and>
      wc_value (recs ! 0) = Some 12 \<and>
      parse_number example_runtime (u ''n/a'') = None \<and> wc_value (recs ! 1) = None)"
proof -
  let ?rt = example_runtime
  let ?df1 = "\<lparr>columns = [u ''County'', u ''PageTitle'', u ''Error''],
      rows = [[Text (u ''Cork''), Text (u ''County Cork''), NaN]]\<rparr>"
  let ?geo = "\<lparr>gcolumns = [u ''NAME_1''], features = [([Text (u ''Cork'')], ())]\<rparr>"
  let ?df2 = "\<lparr>columns = [u ''COUNTY'', u ''words''],
      rows = [[Text (u ''Cork''), PyInt 12], [Text (u ''Kerry''), Text (u ''n/a'')]]\<rparr>"
  have l1: "u ''prosewords'' \<notin> lower ?rt ` set (columns ?df1) \<and>
            u ''words'' \<notin> lower ?rt ` set (columns ?df1)"
    by (simp add: u_def lower_def lower_cp_def)
  have l2: "u ''county'' \<in> lower ?rt ` set (columns ?df2) \<and>
            u ''words'' \<in> lower ?rt ` set (columns ?df2)"
    by (simp add: u_def lower_def lower_cp_def)
  have w2: "words_column ?rt ?df2 = Some (u ''words'')"
    by (simp add: col_defs)
  have g0: "getitem (columns ?df2) (rows ?df2 ! 0) (u ''words'') = PyInt 12"
    by (simp add: getitem_def u_def)
  have g1: "getitem (columns ?df2) (rows ?df2 ! 1) (u ''words'') = Text (u ''n/a'')"
    by (simp add: getitem_def u_def)
  have p: "parse_number ?rt (u ''n/a'') = None" by (simp add: example_runtime_def)
  note t1 = load_wordcounts_columns [of ?rt ?df1 ?geo]
  note t2 = load_wordcounts_columns [of ?rt ?df2 ?geo]
  have e1: "load_wordcounts ?rt ?df1 = Inl ValueError" using t1 l1 by blast
  then have m1: "main ?rt ?df1 ?geo = Inl ValueError" using t1 by blast
  have e2: "load_wordcounts ?rt ?df2 \<noteq> Inl ValueError" using t2 l2 by blast
  then obtain recs where r: "load_wordcounts ?rt ?df2 = Inr recs" "length recs = length (rows ?df2)"
    and v: "\<forall>i < length (rows ?df2).
            wc_value (recs ! i) =
              to_numeric ?rt (getitem (columns ?df2) (rows ?df2 ! i) (the (words_column ?rt ?df2))) \<and>
            (\<forall>s. getitem (columns ?df2) (rows ?df2 ! i) (the (words_column ?rt ?df2)) = Text s \<and>
                 parse_number ?rt s = None \<longrightarrow> wc_value (recs ! i) = None)"
    using t2 by blast
  have len: "length (rows ?df2) = 2" by simp
  have "wc_value (recs ! 0) = Some 12"
    using v len g0 w2 by (metis option.sel to_numeric.simps(2) of_int_numeral zero_less_numeral)
  moreover have "wc_value (recs ! 1) = None"
    using v len g1 w2 p by (metis option.sel one_less_numeral_iff semiring_norm(76))
  ultimately show ?thesis using e1 m1 e2 r len p by auto
qed

theorem words_column_prefers_prosewords_witness:
  "u ''prosewords'' \<in> lower example_runtime ` set [u ''County'', u ''Words'', u ''ProseWords''] \<and>
   words_column example_runtime
     \<lparr>columns = [u ''County'', u ''Words'', u ''ProseWords''],
      rows = [[Text (u ''Cork''), PyInt 7, PyInt 12]]\<rparr> = Some (u ''ProseWords'') \<and>
   map wc_value (projr (load_wordcounts example_runtime
     \<lparr>columns = [u ''County'', u ''Words'', u ''ProseWords''],
      rows = [[Text (u ''Cork''), PyInt 7, PyInt 12]]\<rparr>)) = [Some 12] \<and>
   words_column example_runtime
     \<lparr>columns = [u ''County'', u ''Words''], rows = [[Text (u ''Cork''), PyInt 7]]\<rparr>
     = Some (u ''Words'') \<and>
   lower example_runtime (u ''Words'') = u ''words'' \<and>
   u ''prosewords'' \<notin> lower example_runtime ` set [u ''County'', u ''Words'']"
proof -
  let ?rt = example_runtime
  let ?dfa = "\<lparr>columns = [u ''County'', u ''Words'', u ''ProseWords''],
      rows = [[Text (u ''Cork''), PyInt 7, PyInt 12]]\<rparr>"
  let ?dfb = "\<lparr>columns = [u ''County'', u ''Words''], rows = [[Text (u ''Cork''), PyInt 7]]\<rparr>"
  note ta = words_column_prefers_prosewords [of ?rt ?dfa]
  note tb = words_column_prefers_prosewords [of ?rt ?dfb]
  have a1: "u ''prosewords'' \<in> lower ?rt ` set [u ''County'', u ''Words'', u ''ProseWords'']"
    by (simp add: u_def lower_def lower_cp_def)
  then obtain c where c: "c \<in> set (columns ?dfa)" "words_column ?rt ?dfa = Some c"
      "lower ?rt c = u ''prosewords''"
    using ta by auto
  have a2: "c = u ''ProseWords''"
    using c(1,3) by (auto simp: u_def lower_def lower_cp_def)
  obtain recs where recs: "load_wordcounts ?rt ?dfa = Inr recs"
    using c(2) by (simp add: load_wordcounts_def Let_def col_defs)
  have "map wc_value recs =
        map (\<lambda>row. to_numeric ?rt (getitem (columns ?dfa) row (the (words_column ?rt ?dfa)))) (rows ?dfa)"
    using ta recs by blast
  then have a3: "map wc_value recs = [Some 12]"
    using c(2) a2 by (simp add: getitem_def u_def)
  have b1: "words_column ?rt ?dfb = Some (u ''Words'')" by (simp add: col_defs)
  have b2: "lower ?rt (u ''Words'') = u ''words''" by (simp add: u_def lower_def lower_cp_def)
  have b3: "u ''prosewords'' \<notin> lower ?rt ` set [u ''County'', u ''Words'']"
    using tb b1 b2 by auto
  show ?thesis using a1 c(2) a2 a3 recs b1 b2 b3 by simp
qed

section \<open>Properties of color\_for\<close>





section \<open>Properties of norm\_county\_name\<close>

lemma lower_table_okD:
  assumes "lower_table_ok rt" "0x80 \<le> c" "d \<in> set (lower_table rt c)"
  shows "lower_cp rt d = [d]"
    and "\<not> isspace c \<Longrightarrow> \<not> isspace d"
    and "c \<noteq> 0x2019 \<Longrightarrow> c \<noteq> 0x2013 \<Longrightarrow> d \<noteq> 0x2019 \<and> d \<noteq> 0x2013"
  using assms unfolding lower_table_ok_def by blast+

lemma lower_table_ok_nonempty:
  assumes "lower_table_ok rt" "0x80 \<le> c" "\<not> isspace c"
  shows "lower_table rt c \<noteq> []"
  using assms unfolding lower_table_ok_def by blast

lemma lower_cp_stable:
  assumes "lower_table_ok rt" "d \<in> set (lower_cp rt c)"
  shows "lower_cp rt d = [d]"
proof (cases "c < 0x80")
  case True
  with assms(2) show ?thesis by (auto simp: lower_cp_def split: if_splits)
next
  case False
  then have "lower_cp rt c = lower_table rt c" "0x80 \<le> c" by (simp_all add: lower_cp_def)
  with assms show ?thesis using lower_table_okD(1) by metis
qed

lemma lower_cp_nonspace:
  assumes "lower_table_ok rt" "\<not> isspace c"
  shows "lower_cp rt c \<noteq> [] \<and> (\<forall>d \<in> set (lower_cp rt c). \<not> isspace d)"
proof (cases "c < 0x80")
  case True
  with assms(2) show ?thesis by (auto simp: lower_cp_def isspace_def split: if_splits)
next
  case False
  then have "lower_cp rt c = lower_table rt c" "0x80 \<le> c" by (simp_all add: lower_cp_def)
  with assms show ?thesis using lower_table_okD(2) lower_table_ok_nonempty by metis
qed

lemma lower_cp_punct:
  assumes "lower_table_ok rt" "c \<noteq> 0x2019" "c \<noteq> 0x2013" "d \<in> set (lower_cp rt c)"
  shows "d \<noteq> 0x2019 \<and> d \<noteq> 0x2013"
proof (cases "c < 0x80")
  case True
  with assms(4) show ?thesis by (auto simp: lower_cp_def split: if_splits)
next
  case False
  then have "lower_cp rt c = lower_table rt c" "0x80 \<le> c" by (simp_all add: lower_cp_def)
  with assms show ?thesis using lower_table_okD(3) by metis
qed

lemma lower_fixed: "\<forall>d \<in> set s. lower_cp rt d = [d] \<Longrightarrow> lower rt s = s"
  by (induction s) (simp_all add: lower_def)

lemma lower_idem:
  assumes "lower_table_ok rt"
  shows "lower rt (lower rt s) = lower rt s"
proof (rule lower_fixed, rule ballI)
  fix d assume "d \<in> set (lower rt s)"
  then obtain c where "d \<in> set (lower_cp rt c)" by (auto simp: lower_def)
  then show "lower_cp rt d = [d]" by (rule lower_cp_stable[OF assms])
qed

lemma strip_ends:
  assumes "strip s \<noteq> []"
  shows "\<not> isspace (hd (strip s)) \<and> \<not> isspace (last (strip s))"
proof -
  let ?a = "dropWhile isspace s"
  let ?b = "dropWhile isspace (rev ?a)"
  have s: "strip s = rev ?b" by (simp add: strip_def lstrip_def rstrip_def)
  with assms have b: "?b \<noteq> []" by simp
  have a: "?a \<noteq> []"
  proof
    assume "?a = []"
    then have "?b = []" by (simp only: rev.simps dropWhile.simps)
    with b show False by simp
  qed
  have 1: "\<not> isspace (hd ?b)" using b by (rule hd_dropWhile)
  have "rev ?a = takeWhile isspace (rev ?a) @ ?b" by simp
  then have "last (rev ?a) = last ?b" using b by (metis last_appendR)
  then have "last ?b = hd ?a" using a by (simp add: last_rev)
  moreover have "\<not> isspace (hd ?a)" using a by (rule hd_dropWhile)
  ultimately have 2: "\<not> isspace (last ?b)" by simp
  show ?thesis using 1 2 b by (simp add: s hd_rev last_rev)
qed

lemma strip_fixed:
  assumes "s = [] \<or> (\<not> isspace (hd s) \<and> \<not> isspace (last s))"
  shows "strip s = s"
proof (cases "s = []")
  case True
  then show ?thesis by (simp add: strip_def lstrip_def rstrip_def)
next
  case False
  with assms have h: "\<not> isspace (hd s)" "\<not> isspace (last s)" by auto
  have 1: "dropWhile isspace s = s" using h(1) False by (cases s) auto
  have "\<not> isspace (hd (rev s))" using h(2) False by (simp add: hd_rev)
  then have 2: "dropWhile isspace (rev s) = rev s" using False by (cases "rev s") auto
  show ?thesis by (simp add: strip_def lstrip_def rstrip_def 1 2)
qed

lemma lower_ends:
  assumes ok: "lower_table_ok rt"
    and "s \<noteq> []" "\<not> isspace (hd s)" "\<not> isspace (last s)"
  shows "lower rt s \<noteq> [] \<and> \<not> isspace (hd (lower rt s)) \<and> \<not> isspace (last (lower rt s))"
proof -
  obtain x xs where x: "s = x # xs" using assms(2) by (cases s) auto
  obtain ys z where z: "s = ys @ [z]" using assms(2) by (metis rev_exhaust)
  have fx: "lower_cp rt x \<noteq> []" "\<forall>d \<in> set (lower_cp rt x). \<not> isspace d"
    using lower_cp_nonspace[OF ok, of x] assms(3) x by auto
  have fz: "lower_cp rt z \<noteq> []" "\<forall>d \<in> set (lower_cp rt z). \<not> isspace d"
    using lower_cp_nonspace[OF ok, of z] assms(4) z by auto
  have 1: "lower rt s = lower_cp rt x @ lower rt xs" by (simp add: x lower_def)
  have 2: "lower rt s = lower rt ys @ lower_cp rt z" by (simp add: z lower_def)
  have "hd (lower rt s) = hd (lower_cp rt x)" using fx(1) by (simp add: 1)
  then have h: "\<not> isspace (hd (lower rt s))" using fx by simp
  have "last (lower rt s) = last (lower_cp rt z)" using fz(1) by (simp add: 2)
  then have l: "\<not> isspace (last (lower rt s))" using fz by simp
  show ?thesis using h l fx(1) 1 by simp
qed

lemma strip_lower_strip:
  assumes "lower_table_ok rt"
  shows "strip (lower rt (strip s)) = lower rt (strip s)"
proof (cases "strip s = []")
  case True
  then show ?thesis by (simp add: lower_def strip_fixed)
next
  case False
  from lower_ends[OF assms False] strip_ends[OF False]
  show ?thesis by (intro strip_fixed) simp
qed

lemma set_strip: "set (strip s) \<subseteq> set s"
proof -
  have "set (strip s) \<subseteq> set (dropWhile isspace s)"
    unfolding strip_def lstrip_def rstrip_def
    using set_dropWhileD[of _ isspace "rev (dropWhile isspace s)"] by auto
  then show ?thesis using set_dropWhileD[of _ isspace s] by auto
qed

lemma replace_fixed: "old \<notin> set s \<Longrightarrow> replace s old new = s"
  by (induction s) (auto simp: replace_def)

lemma replaced_free:
  "0x2019 \<notin> set (replace (replace s 0x2019 0x27) 0x2013 0x2D) \<and>
   0x2013 \<notin> set (replace (replace s 0x2019 0x27) 0x2013 0x2D)"
  by (auto simp: replace_def)

lemma lower_punct_free:
  assumes ok: "lower_table_ok rt" and "0x2019 \<notin> set s" "0x2013 \<notin> set s"
  shows "0x2019 \<notin> set (lower rt s) \<and> 0x2013 \<notin> set (lower rt s)"
proof -
  have "d \<noteq> 0x2019 \<and> d \<noteq> 0x2013" if "d \<in> set (lower rt s)" for d
  proof -
    from that obtain c where c: "c \<in> set s" "d \<in> set (lower_cp rt c)" by (auto simp: lower_def)
    then have "c \<noteq> 0x2019" "c \<noteq> 0x2013" using assms(2,3) by auto
    from lower_cp_punct[OF ok this c(2)] show ?thesis .
  qed
  then show ?thesis by blast
qed

lemma norm_fixed:
  assumes "strip t = t" "lower rt t = t" "0x2019 \<notin> set t" "0x2013 \<notin> set t"
    and "\<not> startswith t (u ''county '')"
  shows "norm_county_name rt (Text t) = dict_get aliases t t"
proof -
  have "replace (replace t 0x2019 0x27) 0x2013 0x2D = t"
    using assms(3,4) by (simp add: replace_fixed)
  then show ?thesis
    using assms(1,2,5) by (simp add: norm_county_name_def Let_def)
qed

lemma aliases_cases:
  assumes "aliases t = Some v"
  shows "(t = u ''kings county'' \<and> v = u ''offaly'') \<or> (t = u ''queens county'' \<and> v = u ''laois'')"
  using assms by (auto simp: aliases_def split: if_splits)

lemma norm_alias_values:
  "norm_county_name rt (Text (u ''offaly'')) = u ''offaly''"
  "norm_county_name rt (Text (u ''laois'')) = u ''laois''"
  by (simp_all add: norm_defs)

lemma norm_empty: "norm_county_name rt (Text []) = []"
  by (simp add: norm_defs)

text \<open>
  C3, amended. Under the assumption on the lowercase table, normalizing a second time
  changes nothing whenever the first result does not itself begin with "county ": the
  prefix is dropped once in each call.
\<close>

theorem norm_county_name_idempotent:
  assumes ok: "lower_table_ok rt"
    and np: "\<not> startswith (norm_county_name rt x) (u ''county '')"
  shows "norm_county_name rt (Text (norm_county_name rt x)) = norm_county_name rt x"
proof (cases "x = PyNone")
  case True
  then have "norm_county_name rt x = []" by (simp add: norm_county_name_def)
  then show ?thesis by (simp only: norm_empty)
next
  case False
  define s0 where "s0 = strip (str rt x)"
  define s1 where "s1 = (if startswith (lower rt s0) (u ''county '') then drop 7 s0 else s0)"
  define r where "r = replace (replace s1 0x2019 0x27) 0x2013 0x2D"
  define t where "t = lower rt (strip r)"
  have n: "norm_county_name rt x = dict_get aliases t t"
    using False by (simp add: norm_county_name_def Let_def s0_def s1_def r_def t_def)
  have t1: "strip t = t" unfolding t_def by (rule strip_lower_strip[OF ok])
  have t2: "lower rt t = t" unfolding t_def by (rule lower_idem[OF ok])
  have "0x2019 \<notin> set (strip r) \<and> 0x2013 \<notin> set (strip r)"
    using replaced_free[of s1] set_strip[of r] unfolding r_def by blast
  then have t3: "0x2019 \<notin> set t" "0x2013 \<notin> set t"
    using lower_punct_free[OF ok, of "strip r"] unfolding t_def by blast+
  show ?thesis
  proof (cases "aliases t")
    case None
    then have e: "norm_county_name rt x = t" using n by (simp add: dict_get_def)
    with np have "\<not> startswith t (u ''county '')" by simp
    from norm_fixed[OF t1 t2 t3 this] show ?thesis using e None by (simp add: dict_get_def)
  next
    case (Some v)
    then have e: "norm_county_name rt x = v" using n by (simp add: dict_get_def)
    from aliases_cases[OF Some] show ?thesis unfolding e by (auto simp: norm_alias_values)
  qed
qed

lemma example_runtime_ok: "lower_table_ok example_runtime"
  by (auto simp: lower_table_ok_def example_runtime_def lower_cp_def)

theorem norm_county_name_idempotent_witness:
  "lower_table_ok example_runtime \<and>
   \<not> startswith (norm_county_name example_runtime (Text (u ''County Cork''))) (u ''county '') \<and>
   norm_county_name example_runtime (Text (norm_county_name example_runtime (Text (u ''County Cork''))))
     = norm_county_name example_runtime (Text (u ''County Cork''))"
proof -
  have n: "norm_county_name example_runtime (Text (u ''County Cork'')) = u ''cork''"
    by (simp add: norm_defs)
  have h: "\<not> startswith (norm_county_name example_runtime (Text (u ''County Cork''))) (u ''county '')"
    unfolding n by (simp add: startswith_def u_def)
  show ?thesis
    using example_runtime_ok h norm_county_name_idempotent [OF example_runtime_ok h] by blast
qed

text \<open>
  C3, as stated, fails: "County County Cork" normalizes to "county cork", which
  normalizes to "cork".
\<close>

theorem norm_county_name_idempotent_counterexample:
  "norm_county_name example_runtime (Text (u ''County County Cork'')) = u ''county cork'' \<and>
   norm_county_name example_runtime
     (Text (norm_county_name example_runtime (Text (u ''County County Cork'')))) = u ''cork'' \<and>
   u ''cork'' \<noteq> u ''county cork''"
proof -
  have 1: "norm_county_name example_runtime (Text (u ''County County Cork'')) = u ''county cork''"
    by (simp add: norm_defs)
  have 2: "norm_county_name example_runtime (Text (u ''county cork'')) = u ''cork''"
    by (simp add: norm_defs)
  show ?thesis by (simp add: 1 2) (simp add: u_def)
qed

end
